theory Spec2Isabelle
  imports Main "HOL-Library.Sublist"
begin

section \<open>String helpers of the Go standard library used by the service\<close>

text \<open>
  Go strings are byte sequences; they are modelled as \<open>string\<close>.  Only the library
  functions that \<open>services/hls_service.go\<close> calls are modelled, at the arguments it
  calls them with (a non-empty separator, a positive count).
\<close>

text \<open>\<open>strings.Index\<close>: position of the first occurrence, \<open>None\<close> for Go's \<open>-1\<close>.\<close>

fun Index :: "string \<Rightarrow> string \<Rightarrow> nat option" where
  "Index [] sep = (if sep = [] then Some 0 else None)"
| "Index (c # cs) sep =
     (if prefix sep (c # cs) then Some 0 else map_option Suc (Index cs sep))"

text \<open>\<open>strings.Contains(s, substr)\<close> is \<open>Index(s, substr) >= 0\<close>.\<close>

definition Contains :: "string \<Rightarrow> string \<Rightarrow> bool" where
  "Contains s substr = (Index s substr \<noteq> None)"

text \<open>\<open>strings.TrimPrefix\<close>.\<close>

definition TrimPrefix :: "string \<Rightarrow> string \<Rightarrow> string" where
  "TrimPrefix s p = (if prefix p s then drop (length p) s else s)"

text \<open>
  \<open>strings.SplitN(s, sep, n)\<close> for \<open>n \<ge> 0\<close> and a non-empty \<open>sep\<close>: at most \<open>n\<close>
  pieces, the last one being the unsplit remainder.
\<close>

fun SplitN :: "string \<Rightarrow> string \<Rightarrow> nat \<Rightarrow> string list" where
  "SplitN s sep 0 = []"
| "SplitN s sep (Suc 0) = [s]"
| "SplitN s sep (Suc (Suc n)) =
     (case Index s sep of
        None \<Rightarrow> [s]
      | Some m \<Rightarrow> take m s # SplitN (drop (m + length sep) s) sep (Suc n))"

text \<open>
  \<open>strings.ToLower\<close> on the ASCII letters (Go also lowers letters outside ASCII; the
  result is only ever written to the log).
\<close>

definition lower_byte :: "char \<Rightarrow> char" where
  "lower_byte c =
     (let n = (of_char c :: nat) in if 65 \<le> n \<and> n \<le> 90 then char_of (n + 32) else c)"

definition ToLower :: "string \<Rightarrow> string" where
  "ToLower s = map lower_byte s"

text \<open>
  \<open>fmt.Sprintf("%d", n)\<close> for an integer: decimal digits, no leading zero, a minus
  sign for negative numbers.
\<close>

definition digit_char :: "nat \<Rightarrow> char" where
  "digit_char d = ''0123456789'' ! d"

fun dec :: "nat \<Rightarrow> string" where
  "dec n = (if n < 10 then [digit_char n] else dec (n div 10) @ [digit_char (n mod 10)])"

declare dec.simps [simp del]

definition Sprintf_d :: "int \<Rightarrow> string" where
  "Sprintf_d i = (if i < 0 then CHR ''-'' # dec (nat (- i)) else dec (nat i))"

text \<open>
  \<open>path/filepath.Clean\<close> and \<open>filepath.Join\<close> on a Unix system.  \<open>Clean\<close> removes
  empty and \<open>.\<close> elements, lets an inner \<open>..\<close> cancel the element before it, drops
  \<open>..\<close> at the start of a rooted path, and returns \<open>.\<close> for an empty result.
\<close>

fun split_slash :: "string \<Rightarrow> string list" where
  "split_slash [] = [[]]"
| "split_slash (c # cs) =
     (if c = CHR ''/'' then [] # split_slash cs
      else (case split_slash cs of [] \<Rightarrow> [[c]] | e # es \<Rightarrow> (c # e) # es))"

fun join_slash :: "string list \<Rightarrow> string" where
  "join_slash [] = []"
| "join_slash [e] = e"
| "join_slash (e # es) = e @ ''/'' @ join_slash es"

text \<open>
  The elements kept by \<open>Clean\<close>: \<open>out\<close> is the output so far, in order.  A \<open>..\<close>
  can backtrack when the output ends in a real element; otherwise it is kept on a relative
  path and dropped on a rooted one.
\<close>

fun clean_elems :: "bool \<Rightarrow> string list \<Rightarrow> string list \<Rightarrow> string list" where
  "clean_elems rooted out [] = out"
| "clean_elems rooted out (e # es) =
     (if e = [] \<or> e = ''.'' then clean_elems rooted out es
      else if e = ''..'' then
        (if out \<noteq> [] \<and> last out \<noteq> ''..'' then clean_elems rooted (butlast out) es
         else if \<not> rooted then clean_elems rooted (out @ [''..'']) es
         else clean_elems rooted out es)
      else clean_elems rooted (out @ [e]) es)"

definition Clean :: "string \<Rightarrow> string" where
  "Clean path =
     (if path = [] then ''.''
      else
        let rooted = (hd path = CHR ''/'');
            out = (if rooted then ''/'' else []) @
                  join_slash (clean_elems rooted [] (split_slash path))
        in if out = [] then ''.'' else out)"

text \<open>\<open>filepath.Join\<close> at two elements: empty elements are ignored, the rest is cleaned.\<close>

definition Join :: "string \<Rightarrow> string \<Rightarrow> string" where
  "Join a b =
     (if a \<noteq> [] then Clean (a @ ''/'' @ b)
      else if b \<noteq> [] then Clean b
      else [])"

section \<open>Data model of \<open>services/hls_service.go\<close>\<close>

datatype StreamState =
    StateInitializing
  | StateGettingInfo
  | StateDownloading
  | StateTranscoding
  | StateReady
  | StateError

text \<open>\<open>StreamState\<close> is a Go string type; these are the constants' values.\<close>

fun state_string :: "StreamState \<Rightarrow> string" where
  "state_string StateInitializing = ''initializing''"
| "state_string StateGettingInfo = ''getting_info''"
| "state_string StateDownloading = ''downloading''"
| "state_string StateTranscoding = ''transcoding''"
| "state_string StateReady = ''ready''"
| "state_string StateError = ''error''"

text \<open>
  A Go \<open>error\<close> is modelled by its message, \<open>None\<close> being \<open>nil\<close>.  Wrapping with
  \<open>fmt.Errorf("...: %w", err)\<close> prepends the text to the message.
\<close>

type_synonym error = string

text \<open>What the service reads of a \<open>*torrent.File\<close>: \<open>Path()\<close> and \<open>Length()\<close>.\<close>

record torrent_File =
  Path :: string
  Length :: int

text \<open>
  What the service reads of a \<open>*torrent.Torrent\<close>: whether the \<open>GotInfo()\<close> channel
  is ever closed, whether \<open>Info()\<close> is non-nil afterwards, and \<open>Files()\<close>.
\<close>

record Torrent_t =
  GotInfo :: bool
  Info :: bool
  Files :: "torrent_File list"

record StreamInfo =
  ID :: string
  MagnetURI :: string
  State :: StreamState
  HlsDir :: string
  Error :: "error option"
  Torrent :: "Torrent_t option"
  File :: "torrent_File option"

text \<open>
  The service and what it acts on.  \<open>streams\<close> is the map of the \<open>HlsService\<close>; its
  values are pointers, so the records live in \<open>heap\<close> (a cell per allocation, \<open>next_ref\<close>
  the next free one) and a record reached through two pointers is one record.
  \<open>dirs\<close> are the directories that exist under the temporary tree, \<open>logs\<close> the lines
  written with \<open>log.Printf\<close>.  \<open>hist\<close> is an auxiliary variable: it records, in order,
  every value stored in a registered record's \<open>State\<close> field together with the id.
\<close>

record world =
  streams :: "string \<rightharpoonup> nat"
  heap :: "nat \<Rightarrow> StreamInfo"
  next_ref :: nat
  baseTempDir :: string
  listenAddr :: string
  dirs :: "string set"
  logs :: "string list"
  hist :: "(string \<times> StreamState) list"

definition logf :: "string \<Rightarrow> world \<Rightarrow> world" where
  "logf line w = w\<lparr>logs := logs w @ [line]\<rparr>"

text \<open>\<open>os.RemoveAll\<close>: the directory and everything below it is gone.\<close>

definition RemoveAll :: "string \<Rightarrow> world \<Rightarrow> world" where
  "RemoveAll d w =
     w\<lparr>dirs := Set.filter (\<lambda>p. \<not> (p = d \<or> prefix (d @ ''/'') p)) (dirs w)\<rparr>"

section \<open>The registry operations\<close>

text \<open>
  \<open>NewHlsService\<close>; \<open>mkdir\<close> is the result of \<open>os.MkdirTemp\<close> (\<open>Inl\<close> the error,
  \<open>Inr\<close> the directory it created).
\<close>

definition blank :: StreamInfo where
  "blank = \<lparr>ID = [], MagnetURI = [], State = StateInitializing, HlsDir = [],
            Error = None, Torrent = None, File = None\<rparr>"

definition NewHlsService :: "error + string \<Rightarrow> string \<Rightarrow> error + world" where
  "NewHlsService mkdir addr =
     (case mkdir of
        Inl err \<Rightarrow> Inl (''failed to create base temp dir: '' @ err)
      | Inr tempDir \<Rightarrow>
          Inr \<lparr>streams = Map.empty, heap = (\<lambda>_. blank), next_ref = 0,
               baseTempDir = tempDir, listenAddr = addr, dirs = {tempDir},
               logs = [''Created base temporary directory: '' @ tempDir], hist = []\<rparr>)"

definition Cleanup :: "world \<Rightarrow> world" where
  "Cleanup w =
     logf (''Removed base temporary directory: '' @ baseTempDir w)
       (RemoveAll (baseTempDir w) w)"

text \<open>
  \<open>updateStreamState\<close>: under the write lock, if the id is registered, the record's
  \<open>State\<close> and \<open>Error\<close> are overwritten with the arguments and one line is logged.
  The function has no result.
\<close>

definition updateStreamState ::
  "string \<Rightarrow> StreamState \<Rightarrow> error option \<Rightarrow> world \<Rightarrow> world" where
  "updateStreamState streamID state err w =
     (case streams w streamID of
        None \<Rightarrow> w
      | Some info \<Rightarrow>
          w\<lparr>heap := (heap w)(info := (heap w info)\<lparr>State := state, Error := err\<rparr>),
            logs := logs w @
              [case err of
                 Some e \<Rightarrow> ''['' @ streamID @ ''] Error state: '' @ e
               | None \<Rightarrow> ''['' @ streamID @ ''] State changed to: '' @ state_string state],
            hist := hist w @ [(streamID, state)]\<rparr>)"

text \<open>\<open>GetStreamInfo\<close> returns the pointer and \<open>ok\<close>; \<open>None\<close> is \<open>(nil, false)\<close>.\<close>

definition GetStreamInfo :: "string \<Rightarrow> world \<Rightarrow> nat option" where
  "GetStreamInfo streamID w = streams w streamID"

text \<open>
  \<open>PrepareStream\<close>.  \<open>now\<close> is the reading \<open>time.Now().UnixNano()\<close> returns,
  \<open>addMagnet\<close> the result of \<open>client.AddMagnet\<close>.  The first part is the critical
  section that allocates the record and stores its pointer under the new id.
\<close>

definition PrepareStream_insert :: "int \<Rightarrow> string \<Rightarrow> world \<Rightarrow> (string \<times> nat) \<times> world" where
  "PrepareStream_insert now magnetURI w =
     (let streamID = Sprintf_d now;
          info = next_ref w
      in ((streamID, info),
          w\<lparr>streams := (streams w)(streamID \<mapsto> info),
            heap := (heap w)(info := \<lparr>ID = streamID, MagnetURI = magnetURI,
                      State = StateInitializing, HlsDir = [], Error = None,
                      Torrent = None, File = None\<rparr>),
            next_ref := Suc info,
            hist := hist w @ [(streamID, StateInitializing)]\<rparr>))"

text \<open>
  The result is the returned pointer, the returned error, and the arguments of the
  goroutine started with \<open>go s.manageStream(ctx, streamID, t)\<close>, if one is started.
\<close>

definition PrepareStream ::
  "int \<Rightarrow> error + Torrent_t \<Rightarrow> string \<Rightarrow> world
     \<Rightarrow> (nat \<times> error option \<times> (string \<times> Torrent_t) option) \<times> world" where
  "PrepareStream now addMagnet magnetURI w =
     (let ((streamID, info), w1) = PrepareStream_insert now magnetURI w;
          w2 = logf (''['' @ streamID @ ''] Adding magnet: '' @ magnetURI) w1
      in case addMagnet of
           Inl err \<Rightarrow>
             (let w3 = updateStreamState streamID StateError
                         (Some (''error adding magnet: '' @ err)) w2
              in ((info, Error (heap w3 info), None), w3))
         | Inr t \<Rightarrow>
             (let w3 = w2\<lparr>heap := (heap w2)(info := (heap w2 info)\<lparr>Torrent := Some t\<rparr>)\<rparr>;
                  w4 = updateStreamState streamID StateGettingInfo None w3
              in ((info, None, Some (streamID, t)), w4)))"

section \<open>The transcoder\<close>

text \<open>
  What one run of \<open>ffmpeg\<close> does, as far as \<open>transcodeToHLS\<close> sees it: the results
  of \<open>cmd.StderrPipe()\<close>, \<open>cmd.Start()\<close> and \<open>cmd.Wait()\<close> (\<open>None\<close> is \<open>nil\<close>),
  the lines the scanner reads from the diagnostic stream and the scanner's error, and
  \<open>ctx.Err()\<close> at the moment \<open>Wait\<close> has returned.  The command is built with
  \<open>exec.Command\<close>, so the context takes no part in running the process.
\<close>

record ffmpeg_run =
  stderrPipe :: "error option"
  start :: "error option"
  stderr_lines :: "string list"
  scanner_err :: "error option"
  wait :: "error option"
  ctx_err :: "error option"

text \<open>The logging goroutine: every line is logged; a keyword adds a second log line.\<close>

fun scan_lines :: "string \<Rightarrow> string list \<Rightarrow> world \<Rightarrow> world" where
  "scan_lines streamID [] w = w"
| "scan_lines streamID (line # rest) w =
     (let w1 = logf (''ffmpeg ['' @ streamID @ '']: '' @ line) w;
          w2 = (if Contains (ToLower line) ''error'' \<or> Contains (ToLower line) ''failed''
                then logf (''Error detected in ffmpeg output for stream '' @ streamID) w1
                else w1)
      in scan_lines streamID rest w2)"

definition log_stderr :: "string \<Rightarrow> ffmpeg_run \<Rightarrow> world \<Rightarrow> world" where
  "log_stderr streamID run w =
     (let w1 = scan_lines streamID (stderr_lines run) w
      in case scanner_err run of
           None \<Rightarrow> w1
         | Some err \<Rightarrow>
             logf (''Error reading ffmpeg stderr for stream '' @ streamID @ '': '' @ err) w1)"

text \<open>
  \<open>transcodeToHLS\<close>.  The goroutine's log lines are placed after the line written
  before \<open>cmd.Wait()\<close>.
\<close>

definition transcodeToHLS ::
  "ffmpeg_run \<Rightarrow> string \<Rightarrow> torrent_File \<Rightarrow> string \<Rightarrow> world \<Rightarrow> error option \<times> world" where
  "transcodeToHLS run streamID file hlsDir w =
     (case stderrPipe run of
        Some err \<Rightarrow> (Some (''error creating stderr pipe for ffmpeg: '' @ err), w)
      | None \<Rightarrow>
     (case start run of
        Some err \<Rightarrow> (Some (''error starting ffmpeg: '' @ err), w)
      | None \<Rightarrow>
     (let w1 = logf (''['' @ streamID @ ''] Waiting for ffmpeg to finish...'') w;
          w2 = log_stderr streamID run w1
      in case wait run of
           Some err \<Rightarrow>
             (case ctx_err run of
                Some c \<Rightarrow> (Some (''ffmpeg stopped due to context cancellation: '' @ c), w2)
              | None \<Rightarrow> (Some (''ffmpeg command failed: '' @ err), w2))
         | None \<Rightarrow> (None, logf (''['' @ streamID @ ''] ffmpeg finished successfully.'') w2))))"

section \<open>The pipeline\<close>

text \<open>
  The loop that selects the largest file; \<open>largestFile\<close> starts as \<open>nil\<close>
  (\<open>None\<close>).
\<close>

fun select_largest :: "torrent_File option \<Rightarrow> torrent_File list \<Rightarrow> torrent_File option" where
  "select_largest largestFile [] = largestFile"
| "select_largest largestFile (file # rest) =
     select_largest
       (case largestFile of
          None \<Rightarrow> Some file
        | Some l \<Rightarrow> if Length file > Length l then Some file else Some l)
       rest"

text \<open>
  A goroutine returns, panics (a nil pointer is dereferenced when the id is not in the
  map) or blocks forever (the \<open>GotInfo\<close> channel is never closed).
\<close>

datatype outcome = Returned world | Panicked world | Blocked world

fun world_of :: "outcome \<Rightarrow> world" where
  "world_of (Returned w) = w"
| "world_of (Panicked w) = w"
| "world_of (Blocked w) = w"

text \<open>
  \<open>manageStream\<close>.  \<open>mkdir\<close> is the result of \<open>os.MkdirTemp\<close> for the HLS
  directory.
\<close>

definition manageStream ::
  "ffmpeg_run \<Rightarrow> error + string \<Rightarrow> string \<Rightarrow> Torrent_t \<Rightarrow> world \<Rightarrow> outcome" where
  "manageStream run mkdir streamID t w =
     (if \<not> GotInfo t then Blocked w
      else if \<not> Info t then
        Returned (updateStreamState streamID StateError (Some ''torrent info not available'') w)
      else
     (case select_largest None (Files t) of
        None \<Rightarrow>
          Returned (updateStreamState streamID StateError (Some ''no files found in torrent'') w)
      | Some largestFile \<Rightarrow>
     (let w1 = logf (''['' @ streamID @ ''] Selected largest file: '' @ Path largestFile @
                     '' ('' @ Sprintf_d (Length largestFile) @ '' bytes)'') w
      in case streams w1 streamID of
           None \<Rightarrow> Panicked w1
         | Some p \<Rightarrow>
     (let w2 = w1\<lparr>heap := (heap w1)(p := (heap w1 p)\<lparr>File := Some largestFile\<rparr>)\<rparr>;
          w3 = updateStreamState streamID StateDownloading None w2
      in case mkdir of
           Inl err \<Rightarrow>
             Returned (updateStreamState streamID StateError
                         (Some (''failed to create HLS temp dir: '' @ err)) w3)
         | Inr hlsDir \<Rightarrow>
     (let w4 = logf (''['' @ streamID @ ''] Created HLS directory: '' @ hlsDir)
                 (w3\<lparr>dirs := insert hlsDir (dirs w3)\<rparr>)
      in case streams w4 streamID of
           None \<Rightarrow> Panicked w4
         | Some q \<Rightarrow>
     (let w5 = w4\<lparr>heap := (heap w4)(q := (heap w4 q)\<lparr>HlsDir := hlsDir\<rparr>)\<rparr>;
          w6 = updateStreamState streamID StateTranscoding None w5;
          (err, w7) = transcodeToHLS run streamID largestFile hlsDir w6
      in case err of
           Some e \<Rightarrow>
             Returned (RemoveAll hlsDir
                         (updateStreamState streamID StateError
                            (Some (''transcoding failed: '' @ e)) w7))
         | None \<Rightarrow> Returned (updateStreamState streamID StateReady None w7)))))))"

section \<open>The segment file server\<close>

record Request =
  Method :: string
  URL_Path :: string

text \<open>
  What \<open>ServeHTTP\<close> does with the response writer: it replies itself with a status and
  a message (\<open>http.NotFound\<close>, \<open>http.Error\<close>; the message is kept without its final
  newline), or it sets the CORS headers and either writes status 200 (\<open>OPTIONS\<close>) or
  hands the resolved path to \<open>http.ServeFile\<close>, which answers from the file system.
\<close>

datatype Response =
    Reply nat string
  | Preflight
  | ServeFile string

definition NotFound :: Response where
  "NotFound = Reply 404 ''404 page not found''"

definition ServeHTTP :: "Request \<Rightarrow> world \<Rightarrow> Response \<times> world" where
  "ServeHTTP r w =
     (let parts = SplitN (TrimPrefix (URL_Path r) ''/'') ''/'' 3
      in if length parts \<noteq> 3 then (NotFound, w)
         else
     (let streamID = parts ! 1;
          fileName = parts ! 2
      in case streams w streamID of
           None \<Rightarrow> (NotFound, logf (''Stream not found or not ready: '' @ streamID) w)
         | Some stream \<Rightarrow>
             if Contains fileName ''..'' then (Reply 400 ''Invalid path'', w)
             else
               (let filePath = Join (HlsDir (heap w stream)) fileName
                in if Method r = ''OPTIONS'' then (Preflight, w)
                   else (ServeFile filePath, w))))"

section \<open>One stream from submission to the end of its goroutine\<close>

text \<open>
  \<open>PrepareStream\<close> followed by the goroutine it starts, run to its end with nothing
  interleaved.  The arguments are what the collaborators answer during the run.
\<close>

definition stream_lifecycle ::
  "int \<Rightarrow> string \<Rightarrow> error + Torrent_t \<Rightarrow> error + string \<Rightarrow> ffmpeg_run \<Rightarrow> world \<Rightarrow> outcome" where
  "stream_lifecycle now magnetURI addMagnet mkdir run w =
     (case PrepareStream now addMagnet magnetURI w of
        ((info, err, None), w') \<Rightarrow> Returned w'
      | ((info, err, Some (streamID, t)), w') \<Rightarrow> manageStream run mkdir streamID t w')"

text \<open>The values a reader of the registry can have seen in the state of one id, in order.\<close>

definition observed :: "string \<Rightarrow> world \<Rightarrow> StreamState list" where
  "observed streamID w = map snd (filter (\<lambda>e. fst e = streamID) (hist w))"






section \<open>Concrete scenarios\<close>

definition ex_service :: world where
  "ex_service =
     \<lparr>streams = Map.empty, heap = (\<lambda>_. blank), next_ref = 0,
      baseTempDir = ''/tmp/torrent-hls-service1'', listenAddr = ''localhost:8080'',
      dirs = {''/tmp/torrent-hls-service1''},
      logs = [''Created base temporary directory: /tmp/torrent-hls-service1''],
      hist = []\<rparr>"

definition ex_magnet :: string where
  "ex_magnet = ''magnet:?xt=urn:btih:abc''"

text \<open>A torrent with payloads of 100 and 5000 bytes, and one with a tie.\<close>

definition ex_torrent :: Torrent_t where
  "ex_torrent =
     \<lparr>GotInfo = True, Info = True,
      Files = [\<lparr>Path = ''notes.txt'', Length = 100\<rparr>, \<lparr>Path = ''film.mkv'', Length = 5000\<rparr>]\<rparr>"

definition ex_torrent_tie :: Torrent_t where
  "ex_torrent_tie =
     \<lparr>GotInfo = True, Info = True,
      Files = [\<lparr>Path = ''a.mkv'', Length = 7\<rparr>, \<lparr>Path = ''b.mkv'', Length = 9\<rparr>,
               \<lparr>Path = ''c.mkv'', Length = 9\<rparr>]\<rparr>"

text \<open>The service after a submission at clock reading 5 that was accepted, and one that was not.\<close>

definition ex_submitted :: world where
  "ex_submitted = snd (PrepareStream 5 (Inr ex_torrent) ex_magnet ex_service)"

definition ex_rejected :: world where
  "ex_rejected = snd (PrepareStream 5 (Inl ''invalid magnet'') ex_magnet ex_service)"

definition ex_hlsDir :: string where
  "ex_hlsDir = ''/tmp/torrent-hls-service1/hls-5-1''"

text \<open>
  Runs of the transcoder: one that exits with status 0 although its diagnostics mention an
  error; the same with the context cancelled meanwhile; one that exits with a failure
  status; one for which the diagnostic pipe cannot be created.
\<close>

definition ex_run_ok :: ffmpeg_run where
  "ex_run_ok =
     \<lparr>stderrPipe = None, start = None,
      stderr_lines = [''frame=1'', ''Error while decoding stream''],
      scanner_err = None, wait = None, ctx_err = None\<rparr>"

definition ex_run_cancelled :: ffmpeg_run where
  "ex_run_cancelled = ex_run_ok\<lparr>ctx_err := Some ''context canceled''\<rparr>"

definition ex_run_failed :: ffmpeg_run where
  "ex_run_failed = ex_run_ok\<lparr>wait := Some ''exit status 1''\<rparr>"

definition ex_run_no_pipe :: ffmpeg_run where
  "ex_run_no_pipe = ex_run_ok\<lparr>stderrPipe := Some ''too many open files''\<rparr>"

text \<open>A second submission arriving at the same clock reading as the first.\<close>

definition ex_resubmitted :: world where
  "ex_resubmitted =
     snd (PrepareStream 5 (Inr ex_torrent_tie) ''magnet:?xt=urn:btih:def'' ex_submitted)"

text \<open>
  Stream 5 after its goroutine has run while the context was cancelled and the
  transcoder went on to exit with status 0.
\<close>

definition ex_after_cancel :: world where
  "ex_after_cancel =
     world_of (manageStream ex_run_cancelled (Inr ex_hlsDir) ''5'' ex_torrent ex_submitted)"

section \<open>Properties of the library functions and of the building blocks\<close>

lemma streams_updateStreamState [simp]:
  "streams (updateStreamState streamID state err w) = streams w"
  by (simp add: updateStreamState_def split: option.splits)

lemma heap_updateStreamState:
  "heap (updateStreamState streamID state err w) =
     (case streams w streamID of
        None \<Rightarrow> heap w
      | Some p \<Rightarrow> (heap w)(p := (heap w p)\<lparr>State := state, Error := err\<rparr>))"
  by (simp add: updateStreamState_def split: option.splits)

lemma hist_updateStreamState:
  "hist (updateStreamState streamID state err w) =
     (if streams w streamID = None then hist w else hist w @ [(streamID, state)])"
  by (simp add: updateStreamState_def split: option.splits)

lemma dirs_updateStreamState [simp]:
  "dirs (updateStreamState streamID state err w) = dirs w"
  by (simp add: updateStreamState_def split: option.splits)

lemma logf_fields [simp]:
  "streams (logf l w) = streams w" "heap (logf l w) = heap w" "hist (logf l w) = hist w"
  "dirs (logf l w) = dirs w" "next_ref (logf l w) = next_ref w"
  by (simp_all add: logf_def)

lemma RemoveAll_fields [simp]:
  "streams (RemoveAll d w) = streams w" "heap (RemoveAll d w) = heap w"
  "hist (RemoveAll d w) = hist w"
  by (simp_all add: RemoveAll_def)

text \<open>The logging goroutine and the transcoder driver change nothing but the log.\<close>

lemma scan_lines_only_logs:
  "scan_lines streamID lines w = w\<lparr>logs := logs (scan_lines streamID lines w)\<rparr>"
proof (induction lines arbitrary: w)
  case Nil
  show ?case by simp
next
  case (Cons line rest)
  define w2 where "w2 =
    (if Contains (ToLower line) ''error'' \<or> Contains (ToLower line) ''failed''
     then logf (''Error detected in ffmpeg output for stream '' @ streamID)
            (logf (''ffmpeg ['' @ streamID @ '']: '' @ line) w)
     else logf (''ffmpeg ['' @ streamID @ '']: '' @ line) w)"
  have step: "scan_lines streamID (line # rest) w = scan_lines streamID rest w2"
    by (simp add: w2_def Let_def)
  have w2: "w2\<lparr>logs := ls\<rparr> = w\<lparr>logs := ls\<rparr>" for ls
    by (simp add: w2_def logf_def)
  have "scan_lines streamID rest w2 = w2\<lparr>logs := logs (scan_lines streamID rest w2)\<rparr>"
    by (rule Cons.IH)
  then have "scan_lines streamID rest w2 = w\<lparr>logs := logs (scan_lines streamID rest w2)\<rparr>"
    by (simp only: w2)
  then show ?case by (simp only: step)
qed

lemma log_stderr_only_logs:
  "log_stderr streamID run w = w\<lparr>logs := logs (log_stderr streamID run w)\<rparr>"
proof (cases "scanner_err run")
  case None
  then show ?thesis
    using scan_lines_only_logs [of streamID "stderr_lines run" w]
    by (simp add: log_stderr_def)
next
  case (Some err)
  have "logf l (scan_lines streamID (stderr_lines run) w) =
          w\<lparr>logs := logs (scan_lines streamID (stderr_lines run) w) @ [l]\<rparr>" for l
    by (subst scan_lines_only_logs) (simp add: logf_def)
  with Some show ?thesis by (simp add: log_stderr_def)
qed

lemma transcodeToHLS_only_logs:
  "snd (transcodeToHLS run streamID file hlsDir w) =
     w\<lparr>logs := logs (snd (transcodeToHLS run streamID file hlsDir w))\<rparr>"
proof -
  define w1 where "w1 = logf (''['' @ streamID @ ''] Waiting for ffmpeg to finish...'') w"
  define w2 where "w2 = log_stderr streamID run w1"
  have "w2 = w1\<lparr>logs := logs w2\<rparr>"
    unfolding w2_def by (rule log_stderr_only_logs)
  then have w2: "w2 = w\<lparr>logs := logs w2\<rparr>"
    by (simp add: w1_def logf_def)
  have fin: "logf l w2 = w\<lparr>logs := logs (logf l w2)\<rparr>" for l
    by (subst w2) (simp add: logf_def)
  have "snd (transcodeToHLS run streamID file hlsDir w) =
          (if stderrPipe run \<noteq> None \<or> start run \<noteq> None then w
           else if wait run \<noteq> None then w2
           else logf (''['' @ streamID @ ''] ffmpeg finished successfully.'') w2)"
    by (auto simp: transcodeToHLS_def Let_def w1_def w2_def split: option.splits)
  then show ?thesis
    using w2 fin by (auto split: if_splits)
qed

lemma transcodeToHLS_fields [simp]:
  "streams (snd (transcodeToHLS run streamID file hlsDir w)) = streams w"
  "heap (snd (transcodeToHLS run streamID file hlsDir w)) = heap w"
  "hist (snd (transcodeToHLS run streamID file hlsDir w)) = hist w"
  "dirs (snd (transcodeToHLS run streamID file hlsDir w)) = dirs w"
proof -
  obtain ls where "snd (transcodeToHLS run streamID file hlsDir w) = w\<lparr>logs := ls\<rparr>"
    using transcodeToHLS_only_logs by metis
  then show
    "streams (snd (transcodeToHLS run streamID file hlsDir w)) = streams w"
    "heap (snd (transcodeToHLS run streamID file hlsDir w)) = heap w"
    "hist (snd (transcodeToHLS run streamID file hlsDir w)) = hist w"
    "dirs (snd (transcodeToHLS run streamID file hlsDir w)) = dirs w"
    by simp_all
qed

lemma transcodeToHLS_result:
  "fst (transcodeToHLS run streamID file hlsDir w) =
     (case stderrPipe run of
        Some err \<Rightarrow> Some (''error creating stderr pipe for ffmpeg: '' @ err)
      | None \<Rightarrow>
     (case start run of
        Some err \<Rightarrow> Some (''error starting ffmpeg: '' @ err)
      | None \<Rightarrow>
     (case wait run of
        Some err \<Rightarrow>
          (case ctx_err run of
             Some c \<Rightarrow> Some (''ffmpeg stopped due to context cancellation: '' @ c)
           | None \<Rightarrow> Some (''ffmpeg command failed: '' @ err))
      | None \<Rightarrow> None)))"
  by (simp add: transcodeToHLS_def Let_def split: option.splits)

text \<open>What \<open>manageStream\<close> does to a registered record, step by step.\<close>

lemma manageStream_registered:
  assumes reg: "streams w streamID = Some p"
  shows "manageStream run mkdir streamID t w =
     (if \<not> GotInfo t then Blocked w
      else if \<not> Info t then
        Returned (updateStreamState streamID StateError (Some ''torrent info not available'') w)
      else
     (case select_largest None (Files t) of
        None \<Rightarrow>
          Returned (updateStreamState streamID StateError (Some ''no files found in torrent'') w)
      | Some largestFile \<Rightarrow>
     (let w1 = logf (''['' @ streamID @ ''] Selected largest file: '' @ Path largestFile @
                     '' ('' @ Sprintf_d (Length largestFile) @ '' bytes)'') w;
          w2 = w1\<lparr>heap := (heap w1)(p := (heap w1 p)\<lparr>File := Some largestFile\<rparr>)\<rparr>;
          w3 = updateStreamState streamID StateDownloading None w2
      in case mkdir of
           Inl err \<Rightarrow>
             Returned (updateStreamState streamID StateError
                         (Some (''failed to create HLS temp dir: '' @ err)) w3)
         | Inr hlsDir \<Rightarrow>
     (let w4 = logf (''['' @ streamID @ ''] Created HLS directory: '' @ hlsDir)
                 (w3\<lparr>dirs := insert hlsDir (dirs w3)\<rparr>);
          w5 = w4\<lparr>heap := (heap w4)(p := (heap w4 p)\<lparr>HlsDir := hlsDir\<rparr>)\<rparr>;
          w6 = updateStreamState streamID StateTranscoding None w5;
          tr = transcodeToHLS run streamID largestFile hlsDir w6
      in case fst tr of
           Some e \<Rightarrow>
             Returned (RemoveAll hlsDir
                         (updateStreamState streamID StateError
                            (Some (''transcoding failed: '' @ e)) (snd tr)))
         | None \<Rightarrow> Returned (updateStreamState streamID StateReady None (snd tr))))))"
  using reg
  by (simp add: manageStream_def Let_def split_beta split: option.splits sum.splits)


lemma Contains_Cons:
  "Contains (c # cs) sub = (prefix sub (c # cs) \<or> Contains cs sub)"
  by (simp add: Contains_def)

lemma Contains_infix: "Contains (a @ sub @ b) sub"
proof (induction a)
  case Nil
  have "prefix sub (sub @ b)" by simp
  then show ?case by (cases "sub @ b") (auto simp: Contains_def)
next
  case (Cons c a)
  then show ?case by (simp add: Contains_Cons)
qed

lemma split_slash_nonempty: "split_slash s \<noteq> []"
  by (cases s) (simp_all split: list.splits)

lemma hd_split_slash_prefix: "prefix (hd (split_slash s)) s"
proof (induction s)
  case Nil
  show ?case by simp
next
  case (Cons c s)
  then show ?case
    using split_slash_nonempty [of s] by (cases "split_slash s") auto
qed

lemma segment_infix: "e \<in> set (split_slash s) \<Longrightarrow> \<exists>a b. s = a @ e @ b"
proof (induction s arbitrary: e)
  case Nil
  then show ?case by simp
next
  case (Cons c s)
  show ?case
  proof (cases "c = CHR ''/''")
    case True
    with Cons.prems have "e = [] \<or> e \<in> set (split_slash s)" by simp
    then show ?thesis
    proof
      assume "e = []"
      then have "c # s = [] @ e @ (c # s)" by simp
      then show ?thesis by blast
    next
      assume "e \<in> set (split_slash s)"
      then obtain a b where "s = a @ e @ b" using Cons.IH by blast
      then have "c # s = (c # a) @ e @ b" by simp
      then show ?thesis by blast
    qed
  next
    case False
    obtain x xs where x: "split_slash s = x # xs"
      using split_slash_nonempty [of s] by (cases "split_slash s") auto
    with False Cons.prems have "e = c # x \<or> e \<in> set xs" by simp
    then show ?thesis
    proof
      assume e: "e = c # x"
      from hd_split_slash_prefix [of s] x obtain b where "s = x @ b"
        by (auto simp: prefix_def)
      with e have "c # s = [] @ e @ b" by simp
      then show ?thesis by blast
    next
      assume "e \<in> set xs"
      with x have "e \<in> set (split_slash s)" by simp
      then obtain a b where "s = a @ e @ b" using Cons.IH by blast
      then have "c # s = (c # a) @ e @ b" by simp
      then show ?thesis by blast
    qed
  qed
qed

lemma dotdot_segment_Contains:
  "''..'' \<in> set (split_slash fileName) \<Longrightarrow> Contains fileName ''..''"
  using segment_infix [of "''..''" fileName] Contains_infix [of _ "''..''"] by metis

lemma select_largest_Some:
  "select_largest (Some l) fs \<noteq> None"
  by (induction fs arbitrary: l) auto

text \<open>The loop invariant of the selection, for a list read from position \<open>k\<close> on.\<close>

lemma select_largest_inv:
  assumes "i < length pre" "l = pre ! i"
    and "\<forall>j<length pre. Length (pre ! j) \<le> Length l"
    and "\<forall>j<i. Length (pre ! j) < Length l"
  shows "\<exists>i'<length (pre @ fs).
           select_largest (Some l) fs = Some ((pre @ fs) ! i') \<and>
           (\<forall>j<length (pre @ fs). Length ((pre @ fs) ! j) \<le> Length ((pre @ fs) ! i')) \<and>
           (\<forall>j<i'. Length ((pre @ fs) ! j) < Length ((pre @ fs) ! i'))"
  using assms
proof (induction fs arbitrary: pre i l)
  case Nil
  then show ?case by auto
next
  case (Cons f fs)
  let ?pre = "pre @ [f]"
  show ?case
  proof (cases "Length f > Length l")
    case True
    have "\<exists>i'<length (?pre @ fs).
           select_largest (Some f) fs = Some ((?pre @ fs) ! i') \<and>
           (\<forall>j<length (?pre @ fs). Length ((?pre @ fs) ! j) \<le> Length ((?pre @ fs) ! i')) \<and>
           (\<forall>j<i'. Length ((?pre @ fs) ! j) < Length ((?pre @ fs) ! i'))"
    proof (rule Cons.IH [of "length pre" ?pre f])
      show "length pre < length ?pre" by simp
      show "f = ?pre ! length pre" by simp
      show "\<forall>j<length ?pre. Length (?pre ! j) \<le> Length f"
        using Cons.prems(3) True by (auto simp: nth_append less_Suc_eq)
      show "\<forall>j<length pre. Length (?pre ! j) < Length f"
        using Cons.prems(3) True by (auto simp: nth_append)
    qed
    with True show ?thesis by simp
  next
    case False
    have "\<exists>i'<length (?pre @ fs).
           select_largest (Some l) fs = Some ((?pre @ fs) ! i') \<and>
           (\<forall>j<length (?pre @ fs). Length ((?pre @ fs) ! j) \<le> Length ((?pre @ fs) ! i')) \<and>
           (\<forall>j<i'. Length ((?pre @ fs) ! j) < Length ((?pre @ fs) ! i'))"
    proof (rule Cons.IH [of i ?pre l])
      show "i < length ?pre" using Cons.prems(1) by simp
      show "l = ?pre ! i" using Cons.prems(1,2) by (simp add: nth_append)
      show "\<forall>j<length ?pre. Length (?pre ! j) \<le> Length l"
        using Cons.prems(3) False by (auto simp: nth_append less_Suc_eq)
      show "\<forall>j<i. Length (?pre ! j) < Length l"
        using Cons.prems(1,4) by (auto simp: nth_append)
    qed
    with False show ?thesis by simp
  qed
qed

lemma select_largest_first_max:
  assumes "fs \<noteq> []"
  shows "\<exists>i<length fs.
           select_largest None fs = Some (fs ! i) \<and>
           (\<forall>j<length fs. Length (fs ! j) \<le> Length (fs ! i)) \<and>
           (\<forall>j<i. Length (fs ! j) < Length (fs ! i))"
proof -
  from assms obtain f rest where fs: "fs = f # rest" by (cases fs) auto
  have "\<exists>i'<length ([f] @ rest).
           select_largest (Some f) rest = Some (([f] @ rest) ! i') \<and>
           (\<forall>j<length ([f] @ rest). Length (([f] @ rest) ! j) \<le> Length (([f] @ rest) ! i')) \<and>
           (\<forall>j<i'. Length (([f] @ rest) ! j) < Length (([f] @ rest) ! i'))"
    by (rule select_largest_inv [of 0]) simp_all
  with fs show ?thesis by simp
qed

lemma select_largest_None: "select_largest None fs = None \<longleftrightarrow> fs = []"
  by (cases fs) (simp_all add: select_largest_Some)


lemma digit_char_inj:
  "a < 10 \<Longrightarrow> b < 10 \<Longrightarrow> digit_char a = digit_char b \<Longrightarrow> a = b"
proof -
  assume a: "a < 10" and b: "b < 10" and e: "digit_char a = digit_char b"
  have d: "distinct ''0123456789''" by simp
  have l: "length ''0123456789'' = 10" by simp
  from e have "''0123456789'' ! a = ''0123456789'' ! b" by (simp only: digit_char_def)
  with d a b l show "a = b" by (metis nth_eq_iff_index_eq)
qed

lemma digit_char_not_minus: "d < 10 \<Longrightarrow> digit_char d \<noteq> CHR ''-''"
proof -
  assume "d < 10"
  then have "digit_char d \<in> set ''0123456789''"
    unfolding digit_char_def by (intro nth_mem) simp
  then show ?thesis by auto
qed

lemma dec_nonempty: "dec n \<noteq> []"
  by (subst dec.simps) simp

lemma hd_dec_not_minus: "hd (dec n) \<noteq> CHR ''-''"
proof (induction n rule: dec.induct)
  case (1 n)
  show ?case
  proof (cases "n < 10")
    case True
    then show ?thesis by (subst dec.simps) (simp add: digit_char_not_minus)
  next
    case False
    with 1 have "hd (dec (n div 10)) \<noteq> CHR ''-''" by simp
    with False show ?thesis by (subst dec.simps) (simp add: dec_nonempty)
  qed
qed

lemma dec_inj: "dec a = dec b \<Longrightarrow> a = b"
proof (induction a arbitrary: b rule: dec.induct)
  case (1 a)
  show ?case
  proof (cases "a < 10")
    case a: True
    show ?thesis
    proof (cases "b < 10")
      case True
      with a 1(2) show ?thesis
        by (simp add: dec.simps [of a] dec.simps [of b] digit_char_inj)
    next
      case False
      with a 1(2) have "[digit_char a] = dec (b div 10) @ [digit_char (b mod 10)]"
        by (simp add: dec.simps [of a] dec.simps [of b])
      then show ?thesis using dec_nonempty [of "b div 10"] by (cases "dec (b div 10)") auto
    qed
  next
    case a: False
    show ?thesis
    proof (cases "b < 10")
      case True
      with a 1(2) have "dec (a div 10) @ [digit_char (a mod 10)] = [digit_char b]"
        by (simp add: dec.simps [of a] dec.simps [of b])
      then show ?thesis using dec_nonempty [of "a div 10"] by (cases "dec (a div 10)") auto
    next
      case False
      with a 1(2) have e: "dec (a div 10) = dec (b div 10)"
        and d: "digit_char (a mod 10) = digit_char (b mod 10)"
        by (simp_all add: dec.simps [of a] dec.simps [of b])
      from 1(1) [OF a e] have "a div 10 = b div 10" .
      moreover from d have "a mod 10 = b mod 10" by (simp add: digit_char_inj)
      ultimately show ?thesis by (metis div_mult_mod_eq)
    qed
  qed
qed

lemma Sprintf_d_inj: "Sprintf_d a = Sprintf_d b \<Longrightarrow> a = b"
proof -
  assume e: "Sprintf_d a = Sprintf_d b"
  have neg: "CHR ''-'' # dec m \<noteq> dec n" for m n
    using hd_dec_not_minus [of n] dec_nonempty [of n] by (cases "dec n") auto
  show "a = b"
  proof (cases "a < 0")
    case a: True
    show ?thesis
    proof (cases "b < 0")
      case True
      with a e have "dec (nat (- a)) = dec (nat (- b))" by (simp add: Sprintf_d_def)
      then have "nat (- a) = nat (- b)" by (rule dec_inj)
      with a True show ?thesis by simp
    next
      case False
      with a e neg show ?thesis by (simp add: Sprintf_d_def)
    qed
  next
    case a: False
    show ?thesis
    proof (cases "b < 0")
      case True
      with a e neg [of "nat (- b)" "nat a"] show ?thesis by (simp add: Sprintf_d_def)
    next
      case False
      with a e have "dec (nat a) = dec (nat b)" by (simp add: Sprintf_d_def)
      then have "nat a = nat b" by (rule dec_inj)
      with a False show ?thesis by simp
    qed
  qed
qed

lemma Index_slash:
  "CHR ''/'' \<notin> set a \<Longrightarrow> Index (a @ CHR ''/'' # b) ''/'' = Some (length a)"
  by (induction a) auto

lemma SplitN_hls:
  assumes "CHR ''/'' \<notin> set streamID"
  shows "SplitN (TrimPrefix (''/hls/'' @ streamID @ ''/'' @ fileName) ''/'') ''/'' 3
           = [''hls'', streamID, fileName]"
  using Index_slash [OF assms, of fileName]
  by (simp add: TrimPrefix_def numeral_3_eq_3)

lemma ServeHTTP_parts:
  assumes "SplitN (TrimPrefix (URL_Path r) ''/'') ''/'' 3 = [p0, streamID, fileName]"
  shows "ServeHTTP r w =
     (case streams w streamID of
           None \<Rightarrow> (NotFound, logf (''Stream not found or not ready: '' @ streamID) w)
         | Some stream \<Rightarrow>
             if Contains fileName ''..'' then (Reply 400 ''Invalid path'', w)
             else if Method r = ''OPTIONS'' then (Preflight, w)
                   else (ServeFile (Join (HlsDir (heap w stream)) fileName), w))"
  unfolding ServeHTTP_def assms by (simp add: Let_def split: option.splits)

lemma ServeHTTP_hls:
  assumes "URL_Path r = ''/hls/'' @ streamID @ ''/'' @ fileName"
    and "CHR ''/'' \<notin> set streamID"
  shows "ServeHTTP r w =
     (case streams w streamID of
           None \<Rightarrow> (NotFound, logf (''Stream not found or not ready: '' @ streamID) w)
         | Some stream \<Rightarrow>
             if Contains fileName ''..'' then (Reply 400 ''Invalid path'', w)
             else if Method r = ''OPTIONS'' then (Preflight, w)
                   else (ServeFile (Join (HlsDir (heap w stream)) fileName), w))"
proof -
  have "SplitN (TrimPrefix (URL_Path r) ''/'') ''/'' 3 = [''hls'', streamID, fileName]"
    unfolding assms(1) by (rule SplitN_hls [OF assms(2)])
  then show ?thesis by (rule ServeHTTP_parts)
qed

lemma ex_submitted_fields:
  "streams ex_submitted = [''5'' \<mapsto> 0]"
  "heap ex_submitted 0 =
     \<lparr>ID = ''5'', MagnetURI = ex_magnet, State = StateGettingInfo, HlsDir = [],
      Error = None, Torrent = Some ex_torrent, File = None\<rparr>"
  "hist ex_submitted = [(''5'', StateInitializing), (''5'', StateGettingInfo)]"
  "dirs ex_submitted = {''/tmp/torrent-hls-service1''}"
  "next_ref ex_submitted = 1"
  by (simp_all add: ex_submitted_def PrepareStream_def PrepareStream_insert_def ex_service_def
      updateStreamState_def logf_def Sprintf_d_def dec.simps digit_char_def Let_def)

lemma ex_rejected_fields:
  "streams ex_rejected = [''5'' \<mapsto> 0]"
  "heap ex_rejected 0 =
     \<lparr>ID = ''5'', MagnetURI = ex_magnet, State = StateError, HlsDir = [],
      Error = Some ''error adding magnet: invalid magnet'', Torrent = None, File = None\<rparr>"
  "hist ex_rejected = [(''5'', StateInitializing), (''5'', StateError)]"
  by (simp_all add: ex_rejected_def PrepareStream_def PrepareStream_insert_def ex_service_def
      updateStreamState_def logf_def Sprintf_d_def dec.simps digit_char_def Let_def)

lemma transcodeToHLS_ok_iff:
  "fst (transcodeToHLS run streamID file hlsDir w) = None \<longleftrightarrow>
     stderrPipe run = None \<and> start run = None \<and> wait run = None"
  by (simp add: transcodeToHLS_result split: option.splits)

lemma PrepareStream_streams:
  "streams (snd (PrepareStream now addMagnet magnetURI w)) =
     (streams w)(Sprintf_d now \<mapsto> next_ref w)"
  by (simp add: PrepareStream_def PrepareStream_insert_def Let_def split: sum.splits)

lemma PrepareStream_hist:
  "hist (snd (PrepareStream now addMagnet magnetURI w)) =
     hist w @ [(Sprintf_d now, StateInitializing),
               (Sprintf_d now, case addMagnet of Inl _ \<Rightarrow> StateError | Inr _ \<Rightarrow> StateGettingInfo)]"
  by (simp add: PrepareStream_def PrepareStream_insert_def Let_def hist_updateStreamState
      split: sum.splits)

lemma PrepareStream_result:
  "fst (PrepareStream now addMagnet magnetURI w) =
     (next_ref w,
      case addMagnet of Inl err \<Rightarrow> Some (''error adding magnet: '' @ err) | Inr _ \<Rightarrow> None,
      case addMagnet of Inl _ \<Rightarrow> None | Inr t \<Rightarrow> Some (Sprintf_d now, t))"
  by (simp add: PrepareStream_def PrepareStream_insert_def Let_def heap_updateStreamState
      split: sum.splits)

lemma PrepareStream_record:
  "heap (snd (PrepareStream now addMagnet magnetURI w)) (next_ref w) =
     \<lparr>ID = Sprintf_d now, MagnetURI = magnetURI,
      State = (case addMagnet of Inl _ \<Rightarrow> StateError | Inr _ \<Rightarrow> StateGettingInfo),
      HlsDir = [],
      Error = (case addMagnet of Inl err \<Rightarrow> Some (''error adding magnet: '' @ err) | Inr _ \<Rightarrow> None),
      Torrent = (case addMagnet of Inl _ \<Rightarrow> None | Inr t \<Rightarrow> Some t),
      File = None\<rparr>"
  by (simp add: PrepareStream_def PrepareStream_insert_def Let_def heap_updateStreamState
      split: sum.splits)

text \<open>The states \<open>manageStream\<close> stores in a registered record, in order.\<close>

lemma manageStream_hist:
  assumes "streams w streamID = Some p"
  shows "hist (world_of (manageStream run mkdir streamID t w)) =
     hist w @ map (Pair streamID)
       (if \<not> GotInfo t then []
        else if \<not> Info t \<or> Files t = [] then [StateError]
        else case mkdir of
               Inl _ \<Rightarrow> [StateDownloading, StateError]
             | Inr _ \<Rightarrow>
                 if stderrPipe run = None \<and> start run = None \<and> wait run = None
                 then [StateDownloading, StateTranscoding, StateReady]
                 else [StateDownloading, StateTranscoding, StateError])"
proof (cases "select_largest None (Files t)")
  case None
  then have "Files t = []" by (simp add: select_largest_None)
  with None assms show ?thesis
    by (simp add: manageStream_registered [OF assms] hist_updateStreamState)
next
  case (Some f)
  then have "Files t \<noteq> []" using select_largest_None [of "Files t"] by auto
  with Some assms show ?thesis
    by (cases mkdir)
      (auto simp: manageStream_registered [OF assms] hist_updateStreamState Let_def
        transcodeToHLS_result split: option.splits)
qed

text \<open>The record at the end of \<open>manageStream\<close>, when it stored any state at all.\<close>

lemma manageStream_final:
  assumes "streams w streamID = Some p" and "GotInfo t"
  shows "State (heap (world_of (manageStream run mkdir streamID t w)) p) =
           (if Info t \<and> Files t \<noteq> [] \<and> (\<exists>d. mkdir = Inr d) \<and>
               stderrPipe run = None \<and> start run = None \<and> wait run = None
            then StateReady else StateError)"
    and "Error (heap (world_of (manageStream run mkdir streamID t w)) p) = None \<longleftrightarrow>
           State (heap (world_of (manageStream run mkdir streamID t w)) p) = StateReady"
proof -
  have "State (heap (world_of (manageStream run mkdir streamID t w)) p) =
           (if Info t \<and> Files t \<noteq> [] \<and> (\<exists>d. mkdir = Inr d) \<and>
               stderrPipe run = None \<and> start run = None \<and> wait run = None
            then StateReady else StateError) \<and>
        (Error (heap (world_of (manageStream run mkdir streamID t w)) p) = None \<longleftrightarrow>
           State (heap (world_of (manageStream run mkdir streamID t w)) p) = StateReady)"
  proof (cases "select_largest None (Files t)")
    case None
    then have "Files t = []" by (simp add: select_largest_None)
    with None assms show ?thesis
      by (simp add: manageStream_registered [OF assms(1)] heap_updateStreamState)
  next
    case (Some f)
    then have "Files t \<noteq> []" using select_largest_None [of "Files t"] by auto
    with Some assms show ?thesis
      by (cases mkdir)
        (auto simp: manageStream_registered [OF assms(1)] heap_updateStreamState Let_def
          transcodeToHLS_result split: option.splits)
  qed
  then show "State (heap (world_of (manageStream run mkdir streamID t w)) p) =
           (if Info t \<and> Files t \<noteq> [] \<and> (\<exists>d. mkdir = Inr d) \<and>
               stderrPipe run = None \<and> start run = None \<and> wait run = None
            then StateReady else StateError)"
    and "Error (heap (world_of (manageStream run mkdir streamID t w)) p) = None \<longleftrightarrow>
           State (heap (world_of (manageStream run mkdir streamID t w)) p) = StateReady"
    by blast+
qed

lemma stream_lifecycle_unfold:
  "stream_lifecycle now magnetURI addMagnet mkdir run w =
     (case addMagnet of
        Inl err \<Rightarrow> Returned (snd (PrepareStream now addMagnet magnetURI w))
      | Inr t \<Rightarrow> manageStream run mkdir (Sprintf_d now) t
                  (snd (PrepareStream now addMagnet magnetURI w)))"
proof -
  obtain r w' where p: "PrepareStream now addMagnet magnetURI w = (r, w')"
    by (cases "PrepareStream now addMagnet magnetURI w")
  with PrepareStream_result [of now addMagnet magnetURI w] show ?thesis
    by (auto simp: stream_lifecycle_def split: sum.splits)
qed


lemma Sprintf_d_5: "Sprintf_d 5 = ''5''"
  by (simp add: Sprintf_d_def dec.simps digit_char_def)

lemma ex_resubmitted_fields:
  "streams ex_resubmitted = [''5'' \<mapsto> Suc 0]"
  "ID (heap ex_resubmitted 0) = ''5''"
  "ID (heap ex_resubmitted (Suc 0)) = ''5''"
  "State (heap ex_resubmitted (Suc 0)) = StateGettingInfo"
  by (simp_all add: ex_resubmitted_def PrepareStream_streams PrepareStream_record
      ex_submitted_fields Sprintf_d_5 PrepareStream_def PrepareStream_insert_def
      heap_updateStreamState Let_def)

lemma manageStream_stderr_irrelevant:
  "heap (world_of (manageStream (run\<lparr>stderr_lines := ls, scanner_err := se\<rparr>) mkdir streamID t w)) =
     heap (world_of (manageStream run mkdir streamID t w))"
  "hist (world_of (manageStream (run\<lparr>stderr_lines := ls, scanner_err := se\<rparr>) mkdir streamID t w)) =
     hist (world_of (manageStream run mkdir streamID t w))"
  "dirs (world_of (manageStream (run\<lparr>stderr_lines := ls, scanner_err := se\<rparr>) mkdir streamID t w)) =
     dirs (world_of (manageStream run mkdir streamID t w))"
  by (simp_all add: manageStream_def Let_def split_beta transcodeToHLS_result
      heap_updateStreamState hist_updateStreamState RemoveAll_def
      split: option.splits sum.splits)

lemma transcodeToHLS_stderr_irrelevant:
  "fst (transcodeToHLS (run\<lparr>stderr_lines := ls, scanner_err := se\<rparr>) streamID payload hlsDir w) =
     fst (transcodeToHLS run streamID payload hlsDir w)"
  by (simp add: transcodeToHLS_result split: option.splits)

lemma NewHlsService_ex:
  "NewHlsService (Inr ''/tmp/torrent-hls-service1'') ''localhost:8080'' = Inr ex_service"
  by (simp add: NewHlsService_def ex_service_def)

lemma Cleanup_removes_tree:
  "p \<in> dirs (Cleanup w) \<longleftrightarrow>
     p \<in> dirs w \<and> p \<noteq> baseTempDir w \<and> \<not> prefix (baseTempDir w @ ''/'') p"
  by (auto simp: Cleanup_def RemoveAll_def logf_def)

text \<open>
  When the transcoding step reports an error, the stream ends in \<open>StateError\<close> and its
  HLS directory is removed.
\<close>

lemma manageStream_transcode_error:
  assumes "streams w streamID = Some p" and "GotInfo t" and "Info t" and "Files t \<noteq> []"
    and "stderrPipe run \<noteq> None \<or> start run \<noteq> None \<or> wait run \<noteq> None"
  shows "State (heap (world_of (manageStream run (Inr hlsDir) streamID t w)) p) = StateError"
    and "hlsDir \<notin> dirs (world_of (manageStream run (Inr hlsDir) streamID t w))"
proof -
  from assms(4) obtain f where f: "select_largest None (Files t) = Some f"
    using select_largest_None [of "Files t"] by (cases "select_largest None (Files t)") auto
  from assms(5) have e: "fst (transcodeToHLS run streamID f hlsDir w') \<noteq> None" for w'
    by (simp add: transcodeToHLS_ok_iff)
  from assms f e
  show "State (heap (world_of (manageStream run (Inr hlsDir) streamID t w)) p) = StateError"
    and "hlsDir \<notin> dirs (world_of (manageStream run (Inr hlsDir) streamID t w))"
    by (auto simp: manageStream_registered [OF assms(1)] Let_def heap_updateStreamState
        RemoveAll_def split: option.splits)
qed

lemma inj_Sprintf_d: "inj Sprintf_d"
  by (rule injI) (rule Sprintf_d_inj)

lemma distinct_ids: "distinct readings \<Longrightarrow> distinct (map Sprintf_d readings)"
  by (simp add: distinct_map inj_Sprintf_d [THEN inj_on_subset])

text \<open>The lifecycle of one stream stores no state under any other id.\<close>

lemma manageStream_other_ids:
  assumes "other \<noteq> streamID"
  shows "observed other (world_of (manageStream run mkdir streamID t w)) = observed other w"
proof -
  have "\<exists>es. hist (world_of (manageStream run mkdir streamID t w)) = hist w @ es \<and>
             (\<forall>e\<in>set es. fst e = streamID)"
    by (auto simp: manageStream_def Let_def split_beta hist_updateStreamState
        split: option.splits sum.splits)
  then obtain es where "hist (world_of (manageStream run mkdir streamID t w)) = hist w @ es"
    and "\<forall>e\<in>set es. fst e = streamID"
    by blast
  with assms show ?thesis
    by (auto simp: observed_def filter_empty_conv)
qed

lemma stream_lifecycle_other_ids:
  assumes "other \<noteq> Sprintf_d now"
  shows "observed other (world_of (stream_lifecycle now magnetURI addMagnet mkdir run w)) =
           observed other w"
proof (cases addMagnet)
  case (Inl err)
  with assms show ?thesis
    by (simp add: stream_lifecycle_unfold observed_def PrepareStream_hist)
next
  case (Inr t)
  with assms show ?thesis
    by (simp add: stream_lifecycle_unfold manageStream_other_ids)
      (simp add: observed_def PrepareStream_hist)
qed

section \<open>The claims\<close>

text \<open>
  Claim C1.  A request for \<open>/hls/<streamID>/<fileName>\<close> whose file name contains
  \<open>..\<close> (by \<open>dotdot_segment_Contains\<close>, every name with a \<open>..\<close> path segment) is
  answered by the handler itself with a client-error status, whether or not the stream id
  is registered: 404 for an unregistered id, 400 \<open>Invalid path\<close> for a registered one.
  In neither case is a path joined or handed to the file server.
\<close>

theorem C1_traversal_rejected:
  assumes "URL_Path r = ''/hls/'' @ streamID @ ''/'' @ fileName"
    and "CHR ''/'' \<notin> set streamID"
    and "Contains fileName ''..''"
  shows "fst (ServeHTTP r w) =
           (if streams w streamID = None then Reply 404 ''404 page not found''
            else Reply 400 ''Invalid path'')"
  using assms(3)
  by (simp add: ServeHTTP_hls [OF assms(1,2)] NotFound_def split: option.splits)

text \<open>The request \<open>/hls/5/../../etc/passwd\<close>, for the registered id 5 and for an unknown id.\<close>

theorem C1_traversal_rejected_witness:
  "Contains ''../../etc/passwd'' ''..'' \<and>
   fst (ServeHTTP \<lparr>Method = ''GET'', URL_Path = ''/hls/5/../../etc/passwd''\<rparr> ex_submitted) =
     Reply 400 ''Invalid path'' \<and>
   fst (ServeHTTP \<lparr>Method = ''GET'', URL_Path = ''/hls/77/../../etc/passwd''\<rparr> ex_submitted) =
     Reply 404 ''404 page not found''"
proof -
  have c: "Contains ''../../etc/passwd'' ''..''"
    by (simp add: Contains_def)
  have p5: "URL_Path \<lparr>Method = ''GET'', URL_Path = ''/hls/5/../../etc/passwd''\<rparr> =
              ''/hls/'' @ ''5'' @ ''/'' @ ''../../etc/passwd''"
    and p77: "URL_Path \<lparr>Method = ''GET'', URL_Path = ''/hls/77/../../etc/passwd''\<rparr> =
              ''/hls/'' @ ''77'' @ ''/'' @ ''../../etc/passwd''"
    by simp_all
  have a: "CHR ''/'' \<notin> set ''5''" and b: "CHR ''/'' \<notin> set ''77''"
    by simp_all
  show ?thesis
    using c C1_traversal_rejected [OF p5 a c, of ex_submitted]
      C1_traversal_rejected [OF p77 b c, of ex_submitted]
    by (simp add: ex_submitted_fields)
qed

text \<open>
  Claim C2, at an input where the code departs from it.  Stream 5 is registered and still
  in \<open>StateGettingInfo\<close>, so its \<open>HlsDir\<close> is empty.  \<open>GET /hls/5/.env\<close> is not
  answered with not-found: \<open>filepath.Join\<close> of the empty directory and the name is
  \<open>.env\<close>, a path relative to the working directory of the process (where the
  configuration loader looks for a file of that name), and that path is handed to
  \<open>http.ServeFile\<close>.
\<close>

theorem C2_unset_directory_resolves_in_cwd:
  "State (heap ex_submitted 0) = StateGettingInfo \<and>
   HlsDir (heap ex_submitted 0) = [] \<and>
   ServeHTTP \<lparr>Method = ''GET'', URL_Path = ''/hls/5/.env''\<rparr> ex_submitted =
     (ServeFile ''.env'', ex_submitted)"
proof -
  have p: "URL_Path \<lparr>Method = ''GET'', URL_Path = ''/hls/5/.env''\<rparr> =
             ''/hls/'' @ ''5'' @ ''/'' @ ''.env''"
    by simp
  have s: "CHR ''/'' \<notin> set ''5''" by simp
  have c: "\<not> Contains ''.env'' ''..''" by (simp add: Contains_def)
  have j: "Join [] ''.env'' = ''.env''" by (simp add: Join_def Clean_def)
  show ?thesis
    using c j by (simp add: ServeHTTP_hls [OF p s] ex_submitted_fields)
qed



text \<open>
  Claim C4.  For a torrent whose info is available and a registered stream: if the file
  list is not empty, the record's \<open>File\<close> is the file at the first position of greatest
  length (no file is longer, every earlier file is strictly shorter), whatever happens
  later in the pipeline; if the list is empty, the stream goes to \<open>StateError\<close> with
  \<open>no files found in torrent\<close>.
\<close>

theorem C4_largest_file_selected:
  assumes "GotInfo t" and "Info t" and "streams w streamID = Some p"
  shows "(Files t \<noteq> [] \<longrightarrow>
            (\<exists>i<length (Files t).
               File (heap (world_of (manageStream run mkdir streamID t w)) p) = Some (Files t ! i) \<and>
               (\<forall>j<length (Files t). Length (Files t ! j) \<le> Length (Files t ! i)) \<and>
               (\<forall>j<i. Length (Files t ! j) < Length (Files t ! i)))) \<and>
         (Files t = [] \<longrightarrow>
            manageStream run mkdir streamID t w =
              Returned (updateStreamState streamID StateError (Some ''no files found in torrent'') w) \<and>
            State (heap (world_of (manageStream run mkdir streamID t w)) p) = StateError \<and>
            Error (heap (world_of (manageStream run mkdir streamID t w)) p) =
              Some ''no files found in torrent'')"
proof (intro conjI impI)
  assume ne: "Files t \<noteq> []"
  from select_largest_first_max [OF ne] obtain i where i: "i < length (Files t)"
    and sel: "select_largest None (Files t) = Some (Files t ! i)"
    and mx: "\<forall>j<length (Files t). Length (Files t ! j) \<le> Length (Files t ! i)"
    and fst: "\<forall>j<i. Length (Files t ! j) < Length (Files t ! i)"
    by blast
  have "File (heap (world_of (manageStream run mkdir streamID t w)) p) = Some (Files t ! i)"
    using assms sel
    by (simp add: manageStream_registered [OF assms(3)] Let_def heap_updateStreamState
        split: sum.splits option.splits)
  with i mx fst
  show "\<exists>i<length (Files t).
          File (heap (world_of (manageStream run mkdir streamID t w)) p) = Some (Files t ! i) \<and>
          (\<forall>j<length (Files t). Length (Files t ! j) \<le> Length (Files t ! i)) \<and>
          (\<forall>j<i. Length (Files t ! j) < Length (Files t ! i))"
    by blast
next
  assume "Files t = []"
  then show "manageStream run mkdir streamID t w =
      Returned (updateStreamState streamID StateError (Some ''no files found in torrent'') w)"
    using assms by (simp add: manageStream_registered [OF assms(3)])
  then show "State (heap (world_of (manageStream run mkdir streamID t w)) p) = StateError"
    and "Error (heap (world_of (manageStream run mkdir streamID t w)) p) =
           Some ''no files found in torrent''"
    using assms(3) by (simp_all add: heap_updateStreamState)
qed

text \<open>
  A torrent whose two largest files have the same length: the earlier one is selected.
  With no files the stream ends in \<open>StateError\<close>.
\<close>

theorem C4_largest_file_selected_witness:
  "GotInfo ex_torrent_tie \<and> Info ex_torrent_tie \<and> streams ex_submitted ''5'' = Some 0 \<and>
   File (heap (world_of (manageStream ex_run_ok (Inr ex_hlsDir) ''5'' ex_torrent_tie
      ex_submitted)) 0) = Some \<lparr>Path = ''b.mkv'', Length = 9\<rparr> \<and>
   State (heap (world_of (manageStream ex_run_ok (Inr ex_hlsDir) ''5''
      (ex_torrent_tie\<lparr>Files := []\<rparr>) ex_submitted)) 0) = StateError"
proof -
  have g: "GotInfo ex_torrent_tie" and i: "Info ex_torrent_tie"
    and r: "streams ex_submitted ''5'' = Some 0"
    by (simp_all add: ex_torrent_tie_def ex_submitted_fields)
  have g': "GotInfo (ex_torrent_tie\<lparr>Files := []\<rparr>)" and i': "Info (ex_torrent_tie\<lparr>Files := []\<rparr>)"
    by (simp_all add: ex_torrent_tie_def)
  have fs: "Files ex_torrent_tie = [\<lparr>Path = ''a.mkv'', Length = 7\<rparr>,
      \<lparr>Path = ''b.mkv'', Length = 9\<rparr>, \<lparr>Path = ''c.mkv'', Length = 9\<rparr>]"
    by (simp add: ex_torrent_tie_def)
  let ?w = "world_of (manageStream ex_run_ok (Inr ex_hlsDir) ''5'' ex_torrent_tie ex_submitted)"
  have ne: "Files ex_torrent_tie \<noteq> []" and len: "length (Files ex_torrent_tie) = 3"
    by (simp_all add: fs)
  from C4_largest_file_selected [OF g i r, of ex_run_ok "Inr ex_hlsDir"] ne
  obtain k where k: "k < length (Files ex_torrent_tie)"
    and sel: "File (heap ?w 0) = Some (Files ex_torrent_tie ! k)"
    and mx: "\<forall>j<length (Files ex_torrent_tie).
               Length (Files ex_torrent_tie ! j) \<le> Length (Files ex_torrent_tie ! k)"
    and first: "\<forall>j<k. Length (Files ex_torrent_tie ! j) < Length (Files ex_torrent_tie ! k)"
    by blast
  from k len have "k = 0 \<or> k = 1 \<or> k = 2" by arith
  then have "k = 1"
  proof (elim disjE)
    assume "k = 0"
    with mx [rule_format, of 1] len show ?thesis by (simp add: fs)
  next
    assume "k = 1"
    then show ?thesis .
  next
    assume "k = 2"
    with first [rule_format, of 1] show ?thesis by (simp add: fs)
  qed
  with sel have a: "File (heap ?w 0) = Some \<lparr>Path = ''b.mkv'', Length = 9\<rparr>"
    by (simp add: fs)
  have e: "Files (ex_torrent_tie\<lparr>Files := []\<rparr>) = []" by simp
  from C4_largest_file_selected [OF g' i' r, of ex_run_ok "Inr ex_hlsDir"] e
  have b: "State (heap (world_of (manageStream ex_run_ok (Inr ex_hlsDir) ''5''
      (ex_torrent_tie\<lparr>Files := []\<rparr>) ex_submitted)) 0) = StateError"
    by blast
  from g i r a b show ?thesis by simp
qed

text \<open>
  Claim C5, at an input where the code departs from it.  The context is cancelled while
  the transcoder runs, and the transcoder goes on to exit with status 0.  Nothing in the
  pipeline acts on the cancellation: the stream ends in \<open>StateReady\<close> with no error, and
  its HLS directory is still there.
\<close>

theorem C5_cancelled_run_ends_ready:
  "ctx_err ex_run_cancelled = Some ''context canceled'' \<and>
   wait ex_run_cancelled = None \<and>
   State (heap ex_after_cancel 0) = StateReady \<and>
   Error (heap ex_after_cancel 0) = None \<and>
   HlsDir (heap ex_after_cancel 0) = ex_hlsDir \<and>
   ex_hlsDir \<in> dirs ex_after_cancel \<and>
   observed ''5'' ex_after_cancel =
     [StateInitializing, StateGettingInfo, StateDownloading, StateTranscoding, StateReady]"
proof -
  have reg: "streams ex_submitted ''5'' = Some 0" by (simp add: ex_submitted_fields)
  have run: "stderrPipe ex_run_cancelled = None" "start ex_run_cancelled = None"
    "wait ex_run_cancelled = None" "ctx_err ex_run_cancelled = Some ''context canceled''"
    by (simp_all add: ex_run_cancelled_def ex_run_ok_def)
  have t: "GotInfo ex_torrent" "Info ex_torrent" "Files ex_torrent \<noteq> []"
    "select_largest None (Files ex_torrent) = Some \<lparr>Path = ''film.mkv'', Length = 5000\<rparr>"
    by (simp_all add: ex_torrent_def)
  have st: "State (heap ex_after_cancel 0) = StateReady"
    and er: "Error (heap ex_after_cancel 0) = None"
    using manageStream_final [OF reg t(1), of ex_run_cancelled "Inr ex_hlsDir"] t run
    by (simp_all add: ex_after_cancel_def)
  have o: "observed ''5'' ex_after_cancel =
     [StateInitializing, StateGettingInfo, StateDownloading, StateTranscoding, StateReady]"
    using t run
    by (simp add: observed_def ex_after_cancel_def manageStream_hist [OF reg] ex_submitted_fields)
  have d: "HlsDir (heap ex_after_cancel 0) = ex_hlsDir" "ex_hlsDir \<in> dirs ex_after_cancel"
    using t run reg
    by (simp_all add: ex_after_cancel_def manageStream_registered [OF reg] Let_def
        heap_updateStreamState transcodeToHLS_result)
  from run st er o d show ?thesis by simp
qed




text \<open>
  Against claim C7 as stated: two submissions that read the same clock value get the same
  id.  The second call allocates a new record (pointer 1) whose \<open>ID\<close> equals that of the
  record created first (pointer 0), which was registered under it; the registry now
  yields the second record for that id.
\<close>

theorem C7_same_reading_same_id:
  "fst (fst (PrepareStream 5 (Inr ex_torrent) ex_magnet ex_service)) = 0 \<and>
   fst (fst (PrepareStream 5 (Inr ex_torrent_tie) ''magnet:?xt=urn:btih:def'' ex_submitted)) = 1 \<and>
   ID (heap ex_resubmitted 0) = ''5'' \<and>
   ID (heap ex_resubmitted 1) = ''5'' \<and>
   GetStreamInfo ''5'' ex_submitted = Some 0 \<and>
   GetStreamInfo ''5'' ex_resubmitted = Some 1"
  by (simp add: PrepareStream_result ex_resubmitted_fields ex_submitted_fields GetStreamInfo_def
      ex_service_def)

text \<open>
  Claim C7, as the code has it.  The id is the decimal rendering of the clock reading.
  When every registered id renders a reading in \<open>T\<close> and the new reading is not in
  \<open>T\<close>, the id is not yet in the registry; and right after the insertion
  \<open>GetStreamInfo\<close> with the id returns the new record, in \<open>StateInitializing\<close>.
\<close>

theorem C7_fresh_when_reading_is_new:
  assumes "dom (streams w) \<subseteq> Sprintf_d ` T" and "now \<notin> T"
  shows "(case PrepareStream_insert now magnetURI w of
            ((streamID, info), w') \<Rightarrow>
              streamID = Sprintf_d now \<and>
              streamID \<notin> dom (streams w) \<and>
              GetStreamInfo streamID w' = Some info \<and>
              ID (heap w' info) = streamID \<and>
              State (heap w' info) = StateInitializing)"
proof -
  have "Sprintf_d now \<notin> Sprintf_d ` T"
  proof
    assume "Sprintf_d now \<in> Sprintf_d ` T"
    then obtain t where "t \<in> T" and "Sprintf_d now = Sprintf_d t" by blast
    then have "now \<in> T" using Sprintf_d_inj by blast
    with assms(2) show False by simp
  qed
  with assms(1) have "Sprintf_d now \<notin> dom (streams w)" by blast
  then show ?thesis
    by (simp add: PrepareStream_insert_def GetStreamInfo_def Let_def)
qed

text \<open>
  A submission at reading 6 to the service that holds the stream of reading 5.
\<close>

theorem C7_fresh_when_reading_is_new_witness:
  "dom (streams ex_submitted) \<subseteq> Sprintf_d ` {5} \<and> (6::int) \<notin> {5} \<and>
   fst (fst (PrepareStream_insert 6 ex_magnet ex_submitted)) = ''6'' \<and>
   ''6'' \<notin> dom (streams ex_submitted) \<and>
   GetStreamInfo ''6'' (snd (PrepareStream_insert 6 ex_magnet ex_submitted)) = Some 1 \<and>
   State (heap (snd (PrepareStream_insert 6 ex_magnet ex_submitted)) 1) = StateInitializing"
proof -
  have a: "dom (streams ex_submitted) \<subseteq> Sprintf_d ` {5}"
    by (simp add: ex_submitted_fields Sprintf_d_5)
  have b: "(6::int) \<notin> {5}" by simp
  have s6: "Sprintf_d 6 = ''6''"
    by (simp add: Sprintf_d_def dec.simps digit_char_def)
  have i: "fst (fst (PrepareStream_insert 6 ex_magnet ex_submitted)) = ''6''"
    and p: "snd (fst (PrepareStream_insert 6 ex_magnet ex_submitted)) = 1"
    by (simp_all add: PrepareStream_insert_def Let_def ex_submitted_fields s6)
  from C7_fresh_when_reading_is_new [OF a b, of ex_magnet]
  have "''6'' \<notin> dom (streams ex_submitted) \<and>
        GetStreamInfo ''6'' (snd (PrepareStream_insert 6 ex_magnet ex_submitted)) = Some 1 \<and>
        State (heap (snd (PrepareStream_insert 6 ex_magnet ex_submitted)) 1) = StateInitializing"
    unfolding split_beta i p by blast
  with a b i show ?thesis by blast
qed

text \<open>
  Against claim C8 as stated (an error exactly when starting or waiting fails): when the
  diagnostic pipe cannot be created, \<open>transcodeToHLS\<close> returns an error although neither
  \<open>cmd.Start\<close> nor \<open>cmd.Wait\<close> fails; neither is reached.
\<close>

theorem C8_pipe_failure_is_an_error:
  "start ex_run_no_pipe = None \<and> wait ex_run_no_pipe = None \<and>
   fst (transcodeToHLS ex_run_no_pipe ''5'' \<lparr>Path = ''film.mkv'', Length = 5000\<rparr>
          ex_hlsDir ex_submitted) =
     Some ''error creating stderr pipe for ffmpeg: too many open files''"
  by (simp add: transcodeToHLS_result ex_run_no_pipe_def ex_run_ok_def)

text \<open>
  Claim C8, as the code has it.  \<open>transcodeToHLS\<close> returns an error exactly when
  creating the stderr pipe, starting the process or waiting for it fails.  The diagnostic
  lines and the scanner's error change neither that result nor, through
  \<open>manageStream\<close>, any record or the sequence of stored states: they reach the log only.
\<close>

theorem C8_error_iff_pipe_start_or_wait_fails:
  "(fst (transcodeToHLS run streamID payload hlsDir w) = None \<longleftrightarrow>
      stderrPipe run = None \<and> start run = None \<and> wait run = None) \<and>
   fst (transcodeToHLS (run\<lparr>stderr_lines := ls, scanner_err := se\<rparr>) streamID payload hlsDir w) =
     fst (transcodeToHLS run streamID payload hlsDir w) \<and>
   heap (world_of (manageStream (run\<lparr>stderr_lines := ls, scanner_err := se\<rparr>) mkdir streamID t w)) =
     heap (world_of (manageStream run mkdir streamID t w)) \<and>
   hist (world_of (manageStream (run\<lparr>stderr_lines := ls, scanner_err := se\<rparr>) mkdir streamID t w)) =
     hist (world_of (manageStream run mkdir streamID t w))"
  by (simp add: transcodeToHLS_ok_iff transcodeToHLS_stderr_irrelevant
      manageStream_stderr_irrelevant)

text \<open>
  A run whose diagnostics contain the keyword \<open>error\<close> and which exits with status 0
  is a success; the same run with a failing \<open>Wait\<close> is an error.
\<close>

theorem C8_error_iff_pipe_start_or_wait_fails_witness:
  "Contains (ToLower ''Error while decoding stream'') ''error'' \<and>
   fst (transcodeToHLS ex_run_ok ''5'' \<lparr>Path = ''film.mkv'', Length = 5000\<rparr>
          ex_hlsDir ex_submitted) = None \<and>
   fst (transcodeToHLS ex_run_failed ''5'' \<lparr>Path = ''film.mkv'', Length = 5000\<rparr>
          ex_hlsDir ex_submitted) \<noteq> None"
proof -
  have k: "Contains (ToLower ''Error while decoding stream'') ''error''"
    by code_simp
  have ok: "stderrPipe ex_run_ok = None \<and> start ex_run_ok = None \<and> wait ex_run_ok = None"
    and failed: "wait ex_run_failed \<noteq> None"
    by (simp_all add: ex_run_ok_def ex_run_failed_def)
  have a: "fst (transcodeToHLS ex_run_ok ''5'' \<lparr>Path = ''film.mkv'', Length = 5000\<rparr>
          ex_hlsDir ex_submitted) = None"
    using ok
      C8_error_iff_pipe_start_or_wait_fails [where run = ex_run_ok and streamID = "''5''"
        and payload = "\<lparr>Path = ''film.mkv'', Length = 5000\<rparr>" and hlsDir = ex_hlsDir
        and w = ex_submitted, THEN conjunct1]
    by simp
  have b: "fst (transcodeToHLS ex_run_failed ''5'' \<lparr>Path = ''film.mkv'', Length = 5000\<rparr>
          ex_hlsDir ex_submitted) \<noteq> None"
    using failed
      C8_error_iff_pipe_start_or_wait_fails [where run = ex_run_failed and streamID = "''5''"
        and payload = "\<lparr>Path = ''film.mkv'', Length = 5000\<rparr>" and hlsDir = ex_hlsDir
        and w = ex_submitted, THEN conjunct1]
    by simp
  from k a b show ?thesis by simp
qed

text \<open>
  Claim C9, as the code has it.  \<open>updateStreamState\<close> at an id that is not in the registry
  returns normally and leaves everything as it was: the map, every record, and the log.
  The function has no result, and no line is logged on this path.
\<close>

theorem C9_unknown_id_is_silent_noop:
  "streams w streamID = None \<Longrightarrow> updateStreamState streamID state err w = w"
  by (simp add: updateStreamState_def)

text \<open>Id 7 is unknown to the service that holds stream 5.\<close>

theorem C9_unknown_id_is_silent_noop_witness:
  "streams ex_rejected ''7'' = None \<and>
   updateStreamState ''7'' StateReady None ex_rejected = ex_rejected"
proof -
  have a: "streams ex_rejected ''7'' = None" by (simp add: ex_rejected_fields)
  from a C9_unknown_id_is_silent_noop [OF a] show ?thesis by simp
qed

text \<open>
  Against claim C9 as stated (the not-found outcome is reported to the caller): a failure
  reported for the unknown id 6 yields exactly the world the call started from.  That
  world is all the function produces, so nothing tells the caller that the id was unknown.
\<close>

theorem C9_not_found_not_reported:
  "streams ex_submitted ''6'' = None \<and>
   updateStreamState ''6'' StateError (Some ''transcoding failed'') ex_submitted = ex_submitted"
  by (simp add: updateStreamState_def ex_submitted_fields)

text \<open>
  Claim C10.  When \<open>AddMagnet\<close> fails, \<open>PrepareStream\<close> returns the record and a
  non-nil error, starts no goroutine, and leaves the record registered under its id in
  state \<open>StateError\<close> with the failure detail; \<open>GetStreamInfo\<close> with that id finds
  the same record.
\<close>

theorem C10_rejected_magnet_stays_registered:
  "(case PrepareStream now (Inl err) magnetURI w of
      ((info, e, spawned), w') \<Rightarrow>
        e = Some (''error adding magnet: '' @ err) \<and>
        spawned = None \<and>
        GetStreamInfo (Sprintf_d now) w' = Some info \<and>
        ID (heap w' info) = Sprintf_d now \<and>
        State (heap w' info) = StateError \<and>
        Error (heap w' info) = Some (''error adding magnet: '' @ err))"
  by (simp add: PrepareStream_def PrepareStream_insert_def GetStreamInfo_def
      heap_updateStreamState Let_def)

end
